theory Spec2Isabelle
  imports Main "HOL-Library.AList"
begin

section \<open>The snapshot store of \<^verbatim>\<open>pipeline/state_manager.py\<close>\<close>

text \<open>
  The store keeps, per branch, a history of state records, a bounded in-memory cache of
  data frames keyed by \<^verbatim>\<open>branch::state_id\<close>, the access order of the cached keys, and a
  directory of spill files. Everything the Python mutates in place is a field of the
  record \<open>StateManager\<close>; every method takes the store and returns its result together
  with the store it leaves behind, also when it raises.

  What is outside the repository is modelled as follows.
  \<^item> A data frame is a value (column names and rows of cells); \<^verbatim>\<open>df.copy()\<close> is the
    identity on values.
  \<^item> The directory \<^verbatim>\<open>temp_dir\<close> is \<open>None\<close> when it does not exist and otherwise the
    association list of its files, by name. Every string is taken to be a usable file
    name, \<^verbatim>\<open>to_parquet\<close> stores the data frame under the name and \<^verbatim>\<open>read_parquet\<close>
    gives it back; writing into a directory that does not exist raises \<open>OSError\<close>.
  \<^item> A Python \<^verbatim>\<open>dict\<close> is an association list with distinct keys, in insertion
    order: \<open>map_of\<close> reads, \<open>AList.update\<close> assigns, \<open>AList.delete\<close> deletes.
  \<^item> \<^verbatim>\<open>pd.Timestamp.now().isoformat()\<close> is an argument of the method that reads the
    clock, and the content hash \<^verbatim>\<open>_compute_hash\<close> (MD5 of pandas' row hashes) is a
    parameter \<open>H\<close>.
\<close>

subsection \<open>Data model\<close>

datatype cell = IntCell int | StrCell string | Missing

record dataframe =
  columns :: "string list"
  rows :: "cell list list"

type_synonym config = "(string \<times> string) list"

record StateRecord =
  id_sr :: string
  parent :: "string option"
  timestamp :: string
  data_hash :: string
  row_count :: nat
  col_count :: nat
  config_snapshot :: config
  delta_summary :: string

record Branch =
  created_at :: string
  forked_from :: "(string \<times> string) option"
  states :: "StateRecord list"

datatype error =
    StateNotFoundError string
  | ValueError string
  | KeyError string
  | IndexError
  | OSError

record StateManager =
  cache_size :: int
  temp_dir :: "(string \<times> dataframe) list option"
  branches :: "(string \<times> Branch) list"
  active_branch :: string
  memory_cache :: "(string \<times> dataframe) list"
  access_order :: "string list"

type_synonym 'a result = "(error + 'a) \<times> StateManager"

subsection \<open>Strings and file names\<close>

text \<open>\<^verbatim>\<open>key.replace("::", "__")\<close>: the occurrences are replaced from the left, without
  overlap.\<close>

fun replace_colons :: "string \<Rightarrow> string" where
  "replace_colons (c # d # cs) =
     (if c = CHR '':'' \<and> d = CHR '':'' then CHR ''_'' # CHR ''_'' # replace_colons cs
      else c # replace_colons (d # cs))"
| "replace_colons cs = cs"

definition make_key :: "string \<Rightarrow> string \<Rightarrow> string" where
  "make_key branch state_id = branch @ ''::'' @ state_id"

definition disk_name :: "string \<Rightarrow> string" where
  "disk_name state_key = replace_colons state_key @ ''.parquet''"

text \<open>\<^verbatim>\<open>k.startswith(p)\<close>.\<close>

fun startswith :: "string \<Rightarrow> string \<Rightarrow> bool" where
  "startswith [] k = True"
| "startswith (p # ps) [] = False"
| "startswith (p # ps) (c # cs) = (p = c \<and> startswith ps cs)"

text \<open>The match of one file name against a \<^verbatim>\<open>glob\<close> pattern: \<^verbatim>\<open>*\<close> stands for any
  run of characters and \<^verbatim>\<open>?\<close> for any one character; every other character stands for
  itself. Bracket expressions are not modelled, so the model speaks only of patterns
  without \<^verbatim>\<open>[\<close>.\<close>

fun glob_match :: "string \<Rightarrow> string \<Rightarrow> bool" where
  "glob_match [] [] = True"
| "glob_match [] (c # cs) = False"
| "glob_match (p # ps) [] = (p = CHR ''*'' \<and> glob_match ps [])"
| "glob_match (p # ps) (c # cs) =
     (if p = CHR ''*'' then glob_match ps (c # cs) \<or> glob_match (p # ps) cs
      else (p = CHR ''?'' \<or> p = c) \<and> glob_match ps cs)"

subsection \<open>The cache\<close>

definition touch :: "string \<Rightarrow> StateManager \<Rightarrow> StateManager" where
  "touch state_key s =
     s\<lparr>access_order :=
         (if state_key \<in> set (access_order s) then remove1 state_key (access_order s)
          else access_order s) @ [state_key]\<rparr>"

text \<open>The eviction loop of \<^verbatim>\<open>_add_to_cache\<close>. \<^verbatim>\<open>pop(0)\<close> on an empty list raises
  \<open>IndexError\<close>, \<^verbatim>\<open>pop(evict_key)\<close> of a key that is not cached raises \<open>KeyError\<close>; both
  pops have happened when \<^verbatim>\<open>to_parquet\<close> runs.\<close>

function evict_loop :: "StateManager \<Rightarrow> unit result" where
  "evict_loop s =
     (if cache_size s \<le> int (length (memory_cache s)) then
        (case access_order s of
           [] \<Rightarrow> (Inl IndexError, s)
         | evict_key # rest \<Rightarrow>
             (case map_of (memory_cache s) evict_key of
                None \<Rightarrow> (Inl (KeyError evict_key), s\<lparr>access_order := rest\<rparr>)
              | Some evicted_df \<Rightarrow>
                  (case temp_dir s of
                     None \<Rightarrow>
                       (Inl OSError,
                        s\<lparr>access_order := rest,
                          memory_cache := AList.delete evict_key (memory_cache s)\<rparr>)
                   | Some files \<Rightarrow>
                       evict_loop
                         (s\<lparr>access_order := rest,
                            memory_cache := AList.delete evict_key (memory_cache s),
                            temp_dir :=
                              Some (AList.update (disk_name evict_key) evicted_df files)\<rparr>))))
      else (Inr (), s))"
  by pat_completeness auto
termination
  by (relation "measure (\<lambda>s. length (access_order s))") auto

declare evict_loop.simps [simp del]

definition add_to_cache :: "string \<Rightarrow> dataframe \<Rightarrow> StateManager \<Rightarrow> unit result" where
  "add_to_cache state_key df s =
     (case map_of (memory_cache s) state_key of
        Some _ \<Rightarrow> (Inr (), touch state_key s)
      | None \<Rightarrow>
          (case evict_loop s of
             (Inl e, s1) \<Rightarrow> (Inl e, s1)
           | (Inr _, s1) \<Rightarrow>
               (Inr (),
                s1\<lparr>memory_cache := AList.update state_key df (memory_cache s1),
                   access_order := access_order s1 @ [state_key]\<rparr>)))"

subsection \<open>The store\<close>

definition mkdir :: "(string \<times> 'a) list option \<Rightarrow> (string \<times> 'a) list option" where
  "mkdir d = (case d of None \<Rightarrow> Some [] | Some files \<Rightarrow> Some files)"

definition StateManager_init ::
  "int \<Rightarrow> (string \<times> dataframe) list option \<Rightarrow> string \<Rightarrow> StateManager" where
  "StateManager_init csize dir now =
     \<lparr>cache_size = csize,
      temp_dir = mkdir dir,
      branches = [(''main'', \<lparr>created_at = now, forked_from = None, states = []\<rparr>)],
      active_branch = ''main'',
      memory_cache = [],
      access_order = []\<rparr>"

definition commit_state ::
  "(dataframe \<Rightarrow> string) \<Rightarrow> string \<Rightarrow> string \<Rightarrow> dataframe \<Rightarrow> config \<Rightarrow> string
     \<Rightarrow> StateManager \<Rightarrow> unit result" where
  "commit_state H now state_id df config delta s =
     (case add_to_cache (make_key (active_branch s) state_id) df s of
        (Inl e, s1) \<Rightarrow> (Inl e, s1)
      | (Inr _, s1) \<Rightarrow>
          (case map_of (branches s1) (active_branch s1) of
             None \<Rightarrow> (Inl (KeyError (active_branch s1)), s1)
           | Some branch \<Rightarrow>
               (Inr (),
                s1\<lparr>branches :=
                     AList.update (active_branch s1)
                       (branch\<lparr>states := states branch @
                          [\<lparr>id_sr = state_id,
                            parent = (if states branch \<noteq> []
                                      then Some (id_sr (last (states branch))) else None),
                            timestamp = now,
                            data_hash = H df,
                            row_count = length (rows df),
                            col_count = length (columns df),
                            config_snapshot = config,
                            delta_summary = delta\<rparr>]\<rparr>)
                       (branches s1)\<rparr>)))"

definition load_state :: "string \<Rightarrow> string \<Rightarrow> StateManager \<Rightarrow> dataframe result" where
  "load_state branch state_id s =
     (case map_of (memory_cache s) (make_key branch state_id) of
        Some df \<Rightarrow> (Inr df, touch (make_key branch state_id) s)
      | None \<Rightarrow>
          (case temp_dir s of
             None \<Rightarrow>
               (Inl (StateNotFoundError
                  (''State '' @ make_key branch state_id @ '' not found'')), s)
           | Some files \<Rightarrow>
               (case map_of files (disk_name (make_key branch state_id)) of
                  None \<Rightarrow>
                    (Inl (StateNotFoundError
                       (''State '' @ make_key branch state_id @ '' not found'')), s)
                | Some df \<Rightarrow>
                    (case add_to_cache (make_key branch state_id) df s of
                       (Inl e, s1) \<Rightarrow> (Inl e, s1)
                     | (Inr _, s1) \<Rightarrow> (Inr df, s1)))))"

definition get_current_state :: "StateManager \<Rightarrow> dataframe option result" where
  "get_current_state s =
     (case map_of (branches s) (active_branch s) of
        None \<Rightarrow> (Inl (KeyError (active_branch s)), s)
      | Some branch \<Rightarrow>
          (if states branch = [] then (Inr None, s)
           else (case load_state (active_branch s) (id_sr (last (states branch))) s of
                   (Inl e, s1) \<Rightarrow> (Inl e, s1)
                 | (Inr df, s1) \<Rightarrow> (Inr (Some df), s1))))"

definition get_current_state_id :: "StateManager \<Rightarrow> error + string option" where
  "get_current_state_id s =
     (case map_of (branches s) (active_branch s) of
        None \<Rightarrow> Inl (KeyError (active_branch s))
      | Some branch \<Rightarrow>
          (if states branch = [] then Inr None else Inr (Some (id_sr (last (states branch))))))"

text \<open>The loop of \<^verbatim>\<open>_get_config_at_state\<close>: the first record with the id decides, and
  the empty dictionary is returned when there is none.\<close>

fun find_config :: "StateRecord list \<Rightarrow> string \<Rightarrow> config" where
  "find_config [] state_id = []"
| "find_config (state # rest) state_id =
     (if id_sr state = state_id then config_snapshot state else find_config rest state_id)"

definition get_config_at_state :: "string \<Rightarrow> string \<Rightarrow> StateManager \<Rightarrow> error + config" where
  "get_config_at_state branch state_id s =
     (case map_of (branches s) branch of
        None \<Rightarrow> Inl (KeyError branch)
      | Some b \<Rightarrow> Inr (find_config (states b) state_id))"

definition create_branch ::
  "(dataframe \<Rightarrow> string) \<Rightarrow> string \<Rightarrow> string \<Rightarrow> string \<Rightarrow> string
     \<Rightarrow> StateManager \<Rightarrow> unit result" where
  "create_branch H now_branch now_commit new_branch_name fork_from_state s =
     (case load_state (active_branch s) fork_from_state s of
        (Inl e, s1) \<Rightarrow> (Inl e, s1)
      | (Inr source_df, s1) \<Rightarrow>
          (case get_config_at_state (active_branch s) fork_from_state s1 of
             Inl e \<Rightarrow> (Inl e, s1)
           | Inr source_config \<Rightarrow>
               commit_state H now_commit fork_from_state source_df source_config
                 (''Forked from '' @ make_key (active_branch s) fork_from_state)
                 (s1\<lparr>branches :=
                       AList.update new_branch_name
                         \<lparr>created_at = now_branch,
                          forked_from = Some (active_branch s, fork_from_state),
                          states = []\<rparr>
                         (branches s1),
                     active_branch := new_branch_name\<rparr>)))"

text \<open>\<^verbatim>\<open>states[-1]\<close> of an empty history raises \<open>IndexError\<close>, after the active branch
  has been set.\<close>

definition switch_branch :: "string \<Rightarrow> StateManager \<Rightarrow> dataframe result" where
  "switch_branch branch_name s =
     (case map_of (branches s) branch_name of
        None \<Rightarrow>
          (Inl (ValueError (''Branch '' @ [CHR 0x27] @ branch_name @ [CHR 0x27]
                  @ '' does not exist'')), s)
      | Some b \<Rightarrow>
          (if states b = [] then (Inl IndexError, s\<lparr>active_branch := branch_name\<rparr>)
           else load_state branch_name (id_sr (last (states b)))
                  (s\<lparr>active_branch := branch_name\<rparr>)))"

text \<open>The loop of \<^verbatim>\<open>delete_branch\<close> over \<^verbatim>\<open>keys_to_remove\<close>.\<close>

fun remove_keys :: "string list \<Rightarrow> StateManager \<Rightarrow> StateManager" where
  "remove_keys [] s = s"
| "remove_keys (key # keys) s =
     remove_keys keys
       (s\<lparr>memory_cache := AList.delete key (memory_cache s),
          access_order :=
            (if key \<in> set (access_order s) then remove1 key (access_order s)
             else access_order s)\<rparr>)"

definition unlink_glob ::
  "string \<Rightarrow> (string \<times> dataframe) list option \<Rightarrow> (string \<times> dataframe) list option" where
  "unlink_glob pattern d =
     (case d of
        None \<Rightarrow> None
      | Some files \<Rightarrow> Some (filter (\<lambda>f. \<not> glob_match pattern (fst f)) files))"

definition delete_branch :: "string \<Rightarrow> StateManager \<Rightarrow> unit result" where
  "delete_branch branch_name s =
     (if branch_name = ''main'' then (Inl (ValueError ''Cannot delete main branch''), s)
      else if branch_name = active_branch s
      then (Inl (ValueError ''Cannot delete active branch''), s)
      else
        (let s1 = remove_keys
                    (filter (startswith (branch_name @ ''::'')) (map fst (memory_cache s))) s;
             s2 = s1\<lparr>temp_dir := unlink_glob (branch_name @ ''__*.parquet'') (temp_dir s1)\<rparr>
         in (case map_of (branches s2) branch_name of
               None \<Rightarrow> (Inl (KeyError branch_name), s2)
             | Some _ \<Rightarrow> (Inr (), s2\<lparr>branches := AList.delete branch_name (branches s2)\<rparr>))))"

definition cleanup :: "StateManager \<Rightarrow> StateManager" where
  "cleanup s = s\<lparr>memory_cache := [], access_order := [], temp_dir := None\<rparr>"

definition reset :: "string \<Rightarrow> StateManager \<Rightarrow> StateManager" where
  "reset now s =
     (let s1 = cleanup s in
      s1\<lparr>temp_dir := mkdir (temp_dir s1),
         branches := [(''main'', \<lparr>created_at = now, forked_from = None, states = []\<rparr>)],
         active_branch := ''main'',
         memory_cache := [],
         access_order := []\<rparr>)"

subsection \<open>Export\<close>

text \<open>The target directory of \<^verbatim>\<open>export_pipeline\<close> is returned as a third component: the
  artifacts written so far stay there when the method raises.
  \<^verbatim>\<open>state_store.json\<close> holds every branch with its records and the name of the active
  branch, \<^verbatim>\<open>pipeline_config.json\<close> the configuration of the last record of the active
  branch.\<close>

datatype artifact =
    ParquetFile dataframe
  | StateStoreJson "(string \<times> Branch) list" string
  | ConfigJson config

type_synonym outdir = "(string \<times> artifact) list"

definition makedirs :: "outdir option \<Rightarrow> outdir" where
  "makedirs d = (case d of None \<Rightarrow> [] | Some files \<Rightarrow> files)"

definition export_metadata :: "outdir \<Rightarrow> StateManager \<Rightarrow> (error + unit) \<times> StateManager \<times> outdir" where
  "export_metadata out s =
     (case map_of (branches s) (active_branch s) of
        None \<Rightarrow>
          (Inl (KeyError (active_branch s)), s,
           AList.update ''state_store.json''
             (StateStoreJson (branches s) (active_branch s)) out)
      | Some b \<Rightarrow>
          (if states b \<noteq> [] then
             (Inr (), s,
              AList.update ''pipeline_config.json''
                (ConfigJson (config_snapshot (last (states b))))
                (AList.update ''state_store.json''
                   (StateStoreJson (branches s) (active_branch s)) out))
           else
             (Inr (), s,
              AList.update ''state_store.json''
                (StateStoreJson (branches s) (active_branch s)) out)))"

definition export_pipeline ::
  "outdir option \<Rightarrow> StateManager \<Rightarrow> (error + unit) \<times> StateManager \<times> outdir" where
  "export_pipeline output_dir s =
     (case load_state ''main'' ''df_raw'' s of
        (Inr raw_df, s1) \<Rightarrow>
          export_metadata
            (AList.update ''df_raw.parquet'' (ParquetFile raw_df) (makedirs output_dir)) s1
      | (Inl e, s1) \<Rightarrow>
          (case e of
             StateNotFoundError _ \<Rightarrow> export_metadata (makedirs output_dir) s1
           | _ \<Rightarrow> (Inl e, s1, makedirs output_dir)))"

subsection \<open>Sequences of public operations\<close>

datatype operation =
    Commit string string dataframe config string
  | Load string string
  | Current
  | Fork string string string string
  | Switch string
  | DeleteBranch string
  | Export "outdir option"
  | Purge
  | Reset string

fun step :: "(dataframe \<Rightarrow> string) \<Rightarrow> operation \<Rightarrow> StateManager \<Rightarrow> StateManager" where
  "step H (Commit now state_id df config delta) s =
     snd (commit_state H now state_id df config delta s)"
| "step H (Load branch state_id) s = snd (load_state branch state_id s)"
| "step H Current s = snd (get_current_state s)"
| "step H (Fork now_branch now_commit new_branch_name fork_from_state) s =
     snd (create_branch H now_branch now_commit new_branch_name fork_from_state s)"
| "step H (Switch branch_name) s = snd (switch_branch branch_name s)"
| "step H (DeleteBranch branch_name) s = snd (delete_branch branch_name s)"
| "step H (Export output_dir) s = fst (snd (export_pipeline output_dir s))"
| "step H Purge s = cleanup s"
| "step H (Reset now) s = reset now s"

fun run :: "(dataframe \<Rightarrow> string) \<Rightarrow> operation list \<Rightarrow> StateManager \<Rightarrow> StateManager" where
  "run H [] s = s"
| "run H (x # xs) s = run H xs (step H x s)"

subsection \<open>The invariant of the cache\<close>

text \<open>The cached keys are distinct, the access order lists exactly the cached keys,
  once each, and the cache holds at most \<open>cache_size\<close> entries, for a capacity of at
  least one.\<close>

definition cache_ok :: "StateManager \<Rightarrow> bool" where
  "cache_ok s \<longleftrightarrow>
     distinct (map fst (memory_cache s)) \<and>
     distinct (access_order s) \<and>
     set (access_order s) = set (map fst (memory_cache s)) \<and>
     int (length (memory_cache s)) \<le> cache_size s \<and>
     1 \<le> cache_size s"


subsection \<open>Sample data\<close>

text \<open>Three data frames and a hash function, for the concrete runs below.\<close>

definition df_a :: dataframe where
  "df_a = \<lparr>columns = [''x''], rows = [[IntCell 1], [IntCell 2]]\<rparr>"

definition df_b :: dataframe where
  "df_b = \<lparr>columns = [''x''], rows = [[IntCell 3], [Missing]]\<rparr>"

definition df_c :: dataframe where
  "df_c = \<lparr>columns = [''x'', ''y''], rows = [[IntCell 5, StrCell ''u'']]\<rparr>"

definition H0 :: "dataframe \<Rightarrow> string" where
  "H0 df = (if rows df = [] then ''empty'' else ''rows'')"

subsection \<open>Sample stores\<close>

text \<open>Stores reached from the constructor by public operations, for the concrete runs
  below: a store with the same id committed twice, a new store, a store with the
  branches \<^verbatim>\<open>exp\<close> and \<^verbatim>\<open>exp__v2\<close> and capacity 1, the same with \<^verbatim>\<open>exp::v2\<close> and
  capacity 5, a store holding \<^verbatim>\<open>df_raw\<close>, and that store after a purge.\<close>

definition recommit_store :: StateManager where
  "recommit_store =
     run H0 [Commit ''t1'' ''df_clean'' df_a [(''step'', ''first'')] ''first run'',
             Commit ''t2'' ''df_clean'' df_c [(''step'', ''second'')] ''second run'']
       (StateManager_init 5 None ''t0'')"

definition fresh_store :: StateManager where
  "fresh_store = StateManager_init 5 None ''t0''"

definition two_branch_store :: StateManager where
  "two_branch_store =
     run H0 [Commit ''t1'' ''df_raw'' df_a [] ''loaded'',
             Fork ''t2'' ''t3'' ''exp'' ''df_raw'',
             Switch ''main'',
             Fork ''t4'' ''t5'' ''exp__v2'' ''df_raw'',
             Commit ''t6'' ''df_clean'' df_b [] ''cleaned'',
             Switch ''main'']
       (StateManager_init 1 None ''t0'')"

definition colon_branch_store :: StateManager where
  "colon_branch_store =
     run H0 [Commit ''t1'' ''df_raw'' df_a [] ''loaded'',
             Fork ''t2'' ''t3'' ''exp'' ''df_raw'',
             Switch ''main'',
             Fork ''t4'' ''t5'' ''exp::v2'' ''df_raw'',
             Commit ''t6'' ''df_clean'' df_b [] ''cleaned'',
             Switch ''main'']
       (StateManager_init 5 None ''t0'')"



section \<open>Properties\<close>

subsection \<open>The eviction loop and the invariant\<close>

lemma evict_loop_not_full:
  "int (length (memory_cache s)) < cache_size s \<Longrightarrow> evict_loop s = (Inr (), s)"
  by (simp add: evict_loop.simps [of s])

lemma evict_loop_full:
  "cache_size s \<le> int (length (memory_cache s)) \<Longrightarrow> access_order s = k # rest \<Longrightarrow>
   map_of (memory_cache s) k = Some df \<Longrightarrow> temp_dir s = Some files \<Longrightarrow>
   evict_loop s =
     evict_loop (s\<lparr>access_order := rest,
                   memory_cache := AList.delete k (memory_cache s),
                   temp_dir := Some (AList.update (disk_name k) df files)\<rparr>)"
  by (simp add: evict_loop.simps [of s])

lemma keys_delete: "set (map fst (AList.delete k al)) = set (map fst al) - {k}"
  by (simp add: delete_keys)

lemma update_absent: "map_of al k = None \<Longrightarrow> AList.update k v al = al @ [(k, v)]"
  by (induction al) (auto split: if_splits)

lemma map_of_Some_key: "map_of al k = Some v \<Longrightarrow> k \<in> set (map fst al)"
  by (metis map_of_eq_None_iff option.distinct(1) set_map)

lemma cache_ok_pop:
  assumes "cache_ok s" "access_order s = k # rest"
  shows "cache_ok (s\<lparr>access_order := rest, memory_cache := AList.delete k (memory_cache s)\<rparr>)"
proof -
  from assms have k: "k \<in> set (map fst (memory_cache s))" and nk: "k \<notin> set rest"
    and eq: "insert k (set rest) = set (map fst (memory_cache s))"
    by (auto simp: cache_ok_def)
  have "set rest = set (map fst (memory_cache s)) - {k}" using eq nk by auto
  moreover have "length (AList.delete k (memory_cache s)) \<le> length (memory_cache s)"
    by (rule length_delete_le)
  ultimately show ?thesis using assms
    by (simp add: cache_ok_def keys_delete distinct_delete del: set_map)
qed

lemma cache_ok_temp_dir [simp]: "cache_ok (s\<lparr>temp_dir := d\<rparr>) = cache_ok s"
  by (simp add: cache_ok_def)

lemma cache_ok_branches [simp]: "cache_ok (s\<lparr>branches := b\<rparr>) = cache_ok s"
  by (simp add: cache_ok_def)

lemma cache_ok_active [simp]: "cache_ok (s\<lparr>active_branch := b\<rparr>) = cache_ok s"
  by (simp add: cache_ok_def)

lemma evict_loop_cache_ok: "cache_ok s \<Longrightarrow> cache_ok (snd (evict_loop s))"
proof (induction s rule: evict_loop.induct)
  case (1 s)
  show ?case
  proof (cases "cache_size s \<le> int (length (memory_cache s))")
    case False
    then show ?thesis using "1.prems" by (simp add: evict_loop.simps [of s])
  next
    case full: True
    from "1.prems" full have "memory_cache s \<noteq> []" by (auto simp: cache_ok_def)
    with "1.prems" obtain k rest where ord: "access_order s = k # rest"
      by (cases "access_order s") (auto simp: cache_ok_def)
    from "1.prems" ord have "k \<in> set (map fst (memory_cache s))"
      by (auto simp: cache_ok_def)
    then obtain df where df: "map_of (memory_cache s) k = Some df"
      by (metis map_of_eq_None_iff not_Some_eq set_map)
    have pop: "cache_ok (s\<lparr>access_order := rest,
        memory_cache := AList.delete k (memory_cache s)\<rparr>)"
      using cache_ok_pop [OF "1.prems" ord] .
    show ?thesis
    proof (cases "temp_dir s")
      case None
      then show ?thesis using full ord df pop by (simp add: evict_loop.simps [of s])
    next
      case (Some files)
      have "cache_ok (snd (evict_loop (s\<lparr>access_order := rest,
                   memory_cache := AList.delete k (memory_cache s),
                   temp_dir := Some (AList.update (disk_name k) df files)\<rparr>)))"
        using "1.IH" [OF full ord df Some] pop by simp
      then show ?thesis using evict_loop_full [OF full ord df Some] by simp
    qed
  qed
qed

lemma evict_loop_success:
  "fst (evict_loop s) = Inr u \<Longrightarrow>
   int (length (memory_cache (snd (evict_loop s)))) < cache_size (snd (evict_loop s))"
proof (induction s rule: evict_loop.induct)
  case (1 s)
  show ?case
  proof (cases "cache_size s \<le> int (length (memory_cache s))")
    case False
    then show ?thesis by (simp add: evict_loop.simps [of s])
  next
    case True
    then show ?thesis using 1
      by (subst (1 2) evict_loop.simps) (auto simp: evict_loop.simps [of s] split: list.splits option.splits)
  qed
qed


lemma evict_loop_frame:
  "cache_size (snd (evict_loop s)) = cache_size s \<and>
   branches (snd (evict_loop s)) = branches s \<and>
   active_branch (snd (evict_loop s)) = active_branch s"
proof (induction s rule: evict_loop.induct)
  case (1 s)
  then show ?case
    by (subst (1 2 3) evict_loop.simps) (auto split: list.splits option.splits)
qed

lemma evict_loop_absent:
  "map_of (memory_cache s) key = None \<Longrightarrow>
   map_of (memory_cache (snd (evict_loop s))) key = None"
proof (induction s rule: evict_loop.induct)
  case (1 s)
  then show ?case
    by (subst evict_loop.simps)
       (auto simp: delete_conv' split: list.splits option.splits)
qed

lemma touch_cache_ok:
  "cache_ok s \<Longrightarrow> key \<in> set (map fst (memory_cache s)) \<Longrightarrow> cache_ok (touch key s)"
  by (auto simp: cache_ok_def touch_def)

lemma add_to_cache_cache_ok:
  assumes "cache_ok s" and "add_to_cache key df s = (r, s')"
  shows "cache_ok s'"
proof (cases "map_of (memory_cache s) key")
  case (Some d)
  then show ?thesis
    using assms touch_cache_ok [OF assms(1) map_of_Some_key [OF Some]]
    by (auto simp: add_to_cache_def)
next
  case None
  obtain r1 s1 where ev: "evict_loop s = (r1, s1)" by (cases "evict_loop s")
  have ok1: "cache_ok s1" using evict_loop_cache_ok [OF assms(1)] ev by simp
  show ?thesis
  proof (cases r1)
    case (Inl e)
    then show ?thesis using None ev ok1 assms(2) by (auto simp: add_to_cache_def)
  next
    case (Inr u)
    have lt: "int (length (memory_cache s1)) < cache_size s1"
      using evict_loop_success [of s u] ev Inr by simp
    have nk: "map_of (memory_cache s1) key = None"
      using evict_loop_absent [OF None] ev by simp
    then have "key \<notin> set (map fst (memory_cache s1))"
      by (simp add: map_of_eq_None_iff)
    then have "cache_ok (s1\<lparr>memory_cache := AList.update key df (memory_cache s1),
                       access_order := access_order s1 @ [key]\<rparr>)"
      using ok1 lt by (auto simp: cache_ok_def update_absent [OF nk])
    then show ?thesis using None ev Inr assms(2) by (auto simp: add_to_cache_def)
  qed
qed

lemma add_to_cache_frame:
  "add_to_cache key df s = (r, s') \<Longrightarrow>
   cache_size s' = cache_size s \<and> branches s' = branches s \<and>
   active_branch s' = active_branch s"
  using evict_loop_frame [of s]
  by (auto simp: add_to_cache_def touch_def split: option.splits prod.splits sum.splits)

lemma commit_state_cache_ok:
  "cache_ok s \<Longrightarrow> commit_state H now i df c d s = (r, s') \<Longrightarrow> cache_ok s'"
  by (auto simp: commit_state_def split: prod.splits sum.splits option.splits
           dest: add_to_cache_cache_ok)

lemma load_state_cache_ok:
  assumes "cache_ok s" and "load_state b i s = (r, s')"
  shows "cache_ok s'"
proof (cases "map_of (memory_cache s) (make_key b i)")
  case (Some d)
  then show ?thesis
    using assms touch_cache_ok [OF assms(1) map_of_Some_key [OF Some]]
    by (auto simp: load_state_def)
next
  case None
  then show ?thesis
    using assms
    by (auto simp: load_state_def split: prod.splits sum.splits option.splits
             dest: add_to_cache_cache_ok)
qed

lemma load_state_frame:
  "load_state b i s = (r, s') \<Longrightarrow>
   cache_size s' = cache_size s \<and> branches s' = branches s \<and>
   active_branch s' = active_branch s"
  by (auto simp: load_state_def touch_def split: option.splits prod.splits sum.splits
           dest: add_to_cache_frame)

lemma get_current_state_cache_ok:
  "cache_ok s \<Longrightarrow> get_current_state s = (r, s') \<Longrightarrow> cache_ok s'"
  unfolding get_current_state_def
  by (auto split: prod.splits sum.splits option.splits if_splits
           dest: load_state_cache_ok)

lemma create_branch_cache_ok:
  assumes "cache_ok s" and "create_branch H t1 t2 n c s = (r, s')"
  shows "cache_ok s'"
proof -
  obtain r1 s1 where l: "load_state (active_branch s) c s = (r1, s1)"
    by (cases "load_state (active_branch s) c s")
  have ok1: "cache_ok s1" using load_state_cache_ok [OF assms(1) l] .
  show ?thesis
  proof (cases r1)
    case (Inl e)
    then show ?thesis using assms(2) l ok1 by (simp add: create_branch_def)
  next
    case (Inr df)
    show ?thesis
    proof (cases "get_config_at_state (active_branch s) c s1")
      case (Inl e)
      then show ?thesis using assms(2) l ok1 Inr by (simp add: create_branch_def)
    next
      case cfg: (Inr source_config)
      have ok2: "cache_ok (s1\<lparr>branches :=
                       AList.update n
                         \<lparr>created_at = t1,
                          forked_from = Some (active_branch s, c),
                          states = []\<rparr>
                         (branches s1),
                     active_branch := n\<rparr>)" (is "cache_ok ?s2")
        using ok1 by simp
      have "commit_state H t2 c df source_config
              (''Forked from '' @ make_key (active_branch s) c) ?s2 = (r, s')"
        using assms(2) l Inr cfg by (simp add: create_branch_def)
      then show ?thesis by (rule commit_state_cache_ok [OF ok2])
    qed
  qed
qed

lemma switch_branch_cache_ok:
  assumes "cache_ok s" and "switch_branch b s = (r, s')"
  shows "cache_ok s'"
proof (cases "map_of (branches s) b")
  case None
  then show ?thesis using assms by (simp add: switch_branch_def)
next
  case (Some br)
  have ok: "cache_ok (s\<lparr>active_branch := b\<rparr>)" using assms(1) by simp
  show ?thesis
  proof (cases "states br = []")
    case True
    then show ?thesis using assms Some by (auto simp: switch_branch_def)
  next
    case False
    then show ?thesis using assms(2) Some load_state_cache_ok [OF ok]
      by (simp add: switch_branch_def)
  qed
qed

lemma remove_keys_cache_ok:
  "cache_ok s \<Longrightarrow> cache_ok (remove_keys ks s)"
proof (induction ks arbitrary: s)
  case Nil
  then show ?case by simp
next
  case (Cons k ks)
  have "length (AList.delete k (memory_cache s)) \<le> length (memory_cache s)"
    by (rule length_delete_le)
  with Cons.prems
  have "cache_ok (s\<lparr>memory_cache := AList.delete k (memory_cache s),
          access_order := (if k \<in> set (access_order s) then remove1 k (access_order s)
             else access_order s)\<rparr>)"
    by (auto simp: cache_ok_def keys_delete distinct_delete simp del: set_map)
  then show ?case using Cons.IH by simp
qed

lemma delete_branch_cache_ok:
  "cache_ok s \<Longrightarrow> delete_branch b s = (r, s') \<Longrightarrow> cache_ok s'"
  using remove_keys_cache_ok [of s]
  by (auto simp: delete_branch_def Let_def split: option.splits if_splits)

lemma cleanup_cache_ok: "cache_ok s \<Longrightarrow> cache_ok (cleanup s)"
  by (simp add: cache_ok_def cleanup_def)

lemma reset_cache_ok: "cache_ok s \<Longrightarrow> cache_ok (reset now s)"
  by (simp add: cache_ok_def cleanup_def reset_def Let_def)

lemma export_metadata_state: "fst (snd (export_metadata out s)) = s"
  by (simp add: export_metadata_def split: option.splits)

lemma export_pipeline_cache_ok:
  assumes "cache_ok s"
  shows "cache_ok (fst (snd (export_pipeline out s)))"
proof -
  obtain r1 s1 where l: "load_state ''main'' ''df_raw'' s = (r1, s1)"
    by (cases "load_state ''main'' ''df_raw'' s")
  have ok1: "cache_ok s1" using load_state_cache_ok [OF assms l] .
  show ?thesis
  proof (cases r1)
    case (Inl e)
    then show ?thesis using l ok1
      by (cases e) (simp_all add: export_pipeline_def export_metadata_state)
  next
    case (Inr df)
    then show ?thesis using l ok1
      by (simp add: export_pipeline_def export_metadata_state)
  qed
qed

lemma step_cache_ok:
  assumes "cache_ok s"
  shows "cache_ok (step H x s)"
proof (cases x)
  case (Commit now i df c d)
  then show ?thesis using commit_state_cache_ok [OF assms, of H now i df c d]
    by (cases "commit_state H now i df c d s") simp
next
  case (Load b i)
  then show ?thesis using load_state_cache_ok [OF assms, of b i]
    by (cases "load_state b i s") simp
next
  case Current
  then show ?thesis using get_current_state_cache_ok [OF assms]
    by (cases "get_current_state s") simp
next
  case (Fork t1 t2 n c)
  then show ?thesis using create_branch_cache_ok [OF assms, of H t1 t2 n c]
    by (cases "create_branch H t1 t2 n c s") simp
next
  case (Switch b)
  then show ?thesis using switch_branch_cache_ok [OF assms, of b]
    by (cases "switch_branch b s") simp
next
  case (DeleteBranch b)
  then show ?thesis using delete_branch_cache_ok [OF assms, of b]
    by (cases "delete_branch b s") simp
next
  case (Export out)
  then show ?thesis using export_pipeline_cache_ok [OF assms] by simp
next
  case Purge
  then show ?thesis using assms by (simp add: cleanup_cache_ok)
next
  case (Reset now)
  then show ?thesis using assms by (simp add: reset_cache_ok)
qed

lemma run_cache_ok: "cache_ok s \<Longrightarrow> cache_ok (run H xs s)"
  by (induction xs arbitrary: s) (simp_all add: step_cache_ok)

lemma init_cache_ok: "1 \<le> n \<Longrightarrow> cache_ok (StateManager_init n dir now)"
  by (simp add: cache_ok_def StateManager_init_def)

subsection \<open>The capacity is fixed\<close>

lemma commit_state_cache_size:
  "commit_state H now i df c d s = (r, s') \<Longrightarrow> cache_size s' = cache_size s"
  unfolding commit_state_def
  by (auto split: prod.splits sum.splits option.splits dest: add_to_cache_frame)

lemma get_current_state_cache_size:
  "get_current_state s = (r, s') \<Longrightarrow> cache_size s' = cache_size s"
  unfolding get_current_state_def
  by (auto split: prod.splits sum.splits option.splits if_splits dest: load_state_frame)

lemma create_branch_cache_size:
  assumes "create_branch H t1 t2 n c s = (r, s')"
  shows "cache_size s' = cache_size s"
proof -
  obtain r1 s1 where l: "load_state (active_branch s) c s = (r1, s1)"
    by (cases "load_state (active_branch s) c s")
  have c1: "cache_size s1 = cache_size s" using load_state_frame [OF l] by simp
  show ?thesis
  proof (cases r1)
    case (Inl e)
    then show ?thesis using assms l c1 by (simp add: create_branch_def)
  next
    case (Inr df)
    show ?thesis
    proof (cases "get_config_at_state (active_branch s) c s1")
      case (Inl e)
      then show ?thesis using assms l c1 Inr by (simp add: create_branch_def)
    next
      case cfg: (Inr source_config)
      have "commit_state H t2 c df source_config
              (''Forked from '' @ make_key (active_branch s) c)
              (s1\<lparr>branches :=
                       AList.update n
                         \<lparr>created_at = t1,
                          forked_from = Some (active_branch s, c),
                          states = []\<rparr>
                         (branches s1),
                     active_branch := n\<rparr>) = (r, s')"
        using assms l Inr cfg by (simp add: create_branch_def)
      from commit_state_cache_size [OF this] show ?thesis using c1 by simp
    qed
  qed
qed

lemma switch_branch_cache_size:
  "switch_branch b s = (r, s') \<Longrightarrow> cache_size s' = cache_size s"
  unfolding switch_branch_def
  by (auto split: option.splits if_splits dest: load_state_frame)

lemma remove_keys_cache_size: "cache_size (remove_keys ks s) = cache_size s"
  by (induction ks arbitrary: s) simp_all

lemma delete_branch_cache_size:
  "delete_branch b s = (r, s') \<Longrightarrow> cache_size s' = cache_size s"
  by (auto simp: delete_branch_def Let_def remove_keys_cache_size
           split: option.splits if_splits)

lemma export_pipeline_cache_size:
  "cache_size (fst (snd (export_pipeline out s))) = cache_size s"
proof -
  obtain r1 s1 where l: "load_state ''main'' ''df_raw'' s = (r1, s1)"
    by (cases "load_state ''main'' ''df_raw'' s")
  have c1: "cache_size s1 = cache_size s" using load_state_frame [OF l] by simp
  show ?thesis
  proof (cases r1)
    case (Inl e)
    then show ?thesis using l c1
      by (cases e) (simp_all add: export_pipeline_def export_metadata_state)
  next
    case (Inr df)
    then show ?thesis using l c1
      by (simp add: export_pipeline_def export_metadata_state)
  qed
qed

lemma step_cache_size: "cache_size (step H x s) = cache_size s"
proof (cases x)
  case (Commit now i df c d)
  then show ?thesis using commit_state_cache_size [of H now i df c d s]
    by (cases "commit_state H now i df c d s") simp
next
  case (Load b i)
  then show ?thesis using load_state_frame [of b i s]
    by (cases "load_state b i s") simp
next
  case Current
  then show ?thesis using get_current_state_cache_size [of s]
    by (cases "get_current_state s") simp
next
  case (Fork t1 t2 n c)
  then show ?thesis using create_branch_cache_size [of H t1 t2 n c s]
    by (cases "create_branch H t1 t2 n c s") simp
next
  case (Switch b)
  then show ?thesis using switch_branch_cache_size [of b s]
    by (cases "switch_branch b s") simp
next
  case (DeleteBranch b)
  then show ?thesis using delete_branch_cache_size [of b s]
    by (cases "delete_branch b s") simp
next
  case (Export out)
  then show ?thesis using export_pipeline_cache_size by simp
next
  case Purge
  then show ?thesis by (simp add: cleanup_def)
next
  case (Reset now)
  then show ?thesis by (simp add: reset_def cleanup_def Let_def)
qed

lemma run_cache_size: "cache_size (run H xs s) = cache_size s"
  by (induction xs arbitrary: s) (simp_all add: step_cache_size)

text \<open>C3. For a store constructed with a capacity of at least one, after any sequence
  of public operations (commit, load, current, fork, switch, delete, export, purge,
  reset, whether they return or raise) the cache holds at most \<open>cache_size\<close> entries,
  under distinct keys, and the capacity is the one given at construction.\<close>

theorem cache_never_exceeds_capacity:
  assumes "1 \<le> n"
  shows "int (length (memory_cache (run H xs (StateManager_init n dir now)))) \<le> n \<and>
         distinct (map fst (memory_cache (run H xs (StateManager_init n dir now)))) \<and>
         cache_size (run H xs (StateManager_init n dir now)) = n"
proof -
  have "cache_ok (run H xs (StateManager_init n dir now))"
    using assms by (simp add: run_cache_ok init_cache_ok)
  moreover have "cache_size (run H xs (StateManager_init n dir now)) = n"
    by (simp add: run_cache_size StateManager_init_def)
  ultimately show ?thesis by (simp add: cache_ok_def)
qed

theorem cache_never_exceeds_capacity_witness:
  "(1::int) \<le> 2 \<and>
   int (length (memory_cache (run H0
      [Commit ''t1'' ''s1'' df_a [] ''a'', Commit ''t2'' ''s2'' df_b [] ''b'',
       Commit ''t3'' ''s3'' df_c [] ''c'', Load ''main'' ''s1'', Purge]
      (StateManager_init 2 None ''t0'')))) \<le> 2"
  using cache_never_exceeds_capacity [of 2 H0
      "[Commit ''t1'' ''s1'' df_a [] ''a'', Commit ''t2'' ''s2'' df_b [] ''b'',
       Commit ''t3'' ''s3'' df_c [] ''c'', Load ''main'' ''s1'', Purge]" None "''t0''"]
  by simp

subsection \<open>Erasure, the capacity-two scenario, forking a missing state\<close>

lemma make_key_inj [simp]: "make_key b i = make_key b j \<longleftrightarrow> i = j"
  by (simp add: make_key_def)


lemma mkdir_Some: "mkdir d = Some (case d of None \<Rightarrow> [] | Some files \<Rightarrow> files)"
  by (simp add: mkdir_def split: option.splits)

text \<open>C10. When the state to fork from is neither cached nor spilled for the active
  branch, \<^verbatim>\<open>create_branch\<close> raises \<open>StateNotFoundError\<close> and the store is unchanged: no
  branch is added and the active branch stays.\<close>

theorem fork_of_missing_state_fails:
  assumes "map_of (memory_cache s) (make_key (active_branch s) c) = None"
    and "temp_dir s = None \<or>
         (\<exists>files. temp_dir s = Some files \<and>
            map_of files (disk_name (make_key (active_branch s) c)) = None)"
  shows "create_branch H t1 t2 new c s =
           (Inl (StateNotFoundError
              (''State '' @ make_key (active_branch s) c @ '' not found'')), s)"
  using assms by (auto simp: create_branch_def load_state_def)

theorem fork_of_missing_state_fails_witness:
  "map_of (memory_cache (run H0 [Commit ''t1'' ''df_raw'' df_a [] ''a'']
       (StateManager_init 5 None ''t0''))) (make_key ''main'' ''ghost'') = None \<and>
   create_branch H0 ''t2'' ''t3'' ''exp'' ''ghost''
     (run H0 [Commit ''t1'' ''df_raw'' df_a [] ''a''] (StateManager_init 5 None ''t0'')) =
   (Inl (StateNotFoundError ''State main::ghost not found''),
    run H0 [Commit ''t1'' ''df_raw'' df_a [] ''a''] (StateManager_init 5 None ''t0''))"
proof -
  let ?s = "run H0 [Commit ''t1'' ''df_raw'' df_a [] ''a''] (StateManager_init 5 None ''t0'')"
  have s: "?s = \<lparr>cache_size = 5, temp_dir = Some [],
      branches = [(''main'', \<lparr>created_at = ''t0'', forked_from = None,
         states = [\<lparr>id_sr = ''df_raw'', parent = None, timestamp = ''t1'',
           data_hash = H0 df_a, row_count = length (rows df_a),
           col_count = length (columns df_a), config_snapshot = [],
           delta_summary = ''a''\<rparr>]\<rparr>)],
      active_branch = ''main'',
      memory_cache = [(''main::df_raw'', df_a)],
      access_order = [''main::df_raw'']\<rparr>"
    by (simp add: commit_state_def add_to_cache_def StateManager_init_def mkdir_Some
          evict_loop_not_full make_key_def)
  have a: "active_branch ?s = ''main''" unfolding s by simp
  have h1: "map_of (memory_cache ?s) (make_key (active_branch ?s) ''ghost'') = None"
    unfolding s by (simp add: make_key_def)
  have h2: "temp_dir ?s = None \<or>
         (\<exists>files. temp_dir ?s = Some files \<and>
            map_of files (disk_name (make_key (active_branch ?s) ''ghost'')) = None)"
    unfolding s by simp
  have "create_branch H0 ''t2'' ''t3'' ''exp'' ''ghost'' ?s =
          (Inl (StateNotFoundError (''State '' @ make_key ''main'' ''ghost'' @ '' not found'')), ?s)"
    using fork_of_missing_state_fails [OF h1 h2, of H0 "''t2''" "''t3''" "''exp''"]
    unfolding a .
  moreover have "map_of (memory_cache ?s) (make_key ''main'' ''ghost'') = None"
    using h1 unfolding a .
  ultimately show ?thesis by (simp only: make_key_def append.simps simp_thms)
qed



subsection \<open>Commits under an id that is already cached\<close>

lemma recommit_store_eq:
  "recommit_store =
     \<lparr>cache_size = 5, temp_dir = Some [],
      branches =
        [(''main'',
          \<lparr>created_at = ''t0'', forked_from = None,
           states =
             [\<lparr>id_sr = ''df_clean'', parent = None, timestamp = ''t1'',
                data_hash = ''rows'', row_count = 2, col_count = 1,
                config_snapshot = [(''step'', ''first'')], delta_summary = ''first run''\<rparr>,
              \<lparr>id_sr = ''df_clean'', parent = Some ''df_clean'', timestamp = ''t2'',
                data_hash = ''rows'', row_count = 1, col_count = 2,
                config_snapshot = [(''step'', ''second'')],
                delta_summary = ''second run''\<rparr>]\<rparr>)],
      active_branch = ''main'',
      memory_cache = [(''main::df_clean'', df_a)],
      access_order = [''main::df_clean'']\<rparr>"
  unfolding recommit_store_def
  by (simp add: commit_state_def add_to_cache_def StateManager_init_def mkdir_Some
        evict_loop_not_full make_key_def touch_def H0_def df_a_def df_c_def)

text \<open>C4 does not hold of the code. \<^verbatim>\<open>_add_to_cache\<close> only touches a key that is
  already cached and returns, so a second commit under the same id on the same branch
  leaves the first data frame in the cache: loading the id and asking for the current
  state give the first data frame, while the record appended by the second commit
  carries the row count of the second.\<close>

theorem commit_of_cached_key_keeps_old_dataset:
  "map_of (memory_cache recommit_store) (make_key ''main'' ''df_clean'') = Some df_a \<and>
   fst (load_state ''main'' ''df_clean'' recommit_store) = Inr df_a \<and>
   fst (get_current_state recommit_store) = Inr (Some df_a) \<and>
   df_a \<noteq> df_c \<and>
   map_option (row_count \<circ> last \<circ> states) (map_of (branches recommit_store) ''main'') =
     Some (length (rows df_c)) \<and>
   length (rows df_a) \<noteq> length (rows df_c)"
  unfolding recommit_store_eq
  by (simp add: load_state_def get_current_state_def make_key_def touch_def
        df_a_def df_c_def)

subsection \<open>Switching branches\<close>

text \<open>C6 does not hold of the code for a branch with an empty history:
  \<^verbatim>\<open>switch_branch\<close> reads \<^verbatim>\<open>states[-1]\<close> without the emptiness test that
  \<^verbatim>\<open>get_current_state\<close> has, and raises \<open>IndexError\<close> on a new store, where
  \<^verbatim>\<open>get_current_state\<close> returns \<^verbatim>\<open>None\<close>.\<close>

theorem switch_to_empty_branch_raises:
  "switch_branch ''main'' fresh_store = (Inl IndexError, fresh_store) \<and>
   get_current_state fresh_store = (Inr None, fresh_store)"
  by (simp add: fresh_store_def switch_branch_def get_current_state_def
        StateManager_init_def)

subsection \<open>Deleting a branch\<close>

lemma two_branch_store_eq:
  "two_branch_store =
     \<lparr>cache_size = 1,
      temp_dir =
        Some [(''main__df_raw.parquet'', df_a), (''exp__df_raw.parquet'', df_a),
              (''exp__v2__df_raw.parquet'', df_a), (''exp__v2__df_clean.parquet'', df_b)],
      branches =
        [(''main'',
          \<lparr>created_at = ''t0'', forked_from = None,
           states =
             [\<lparr>id_sr = ''df_raw'', parent = None, timestamp = ''t1'',
                data_hash = ''rows'', row_count = 2, col_count = 1,
                config_snapshot = [], delta_summary = ''loaded''\<rparr>]\<rparr>),
         (''exp'',
          \<lparr>created_at = ''t2'', forked_from = Some (''main'', ''df_raw''),
           states =
             [\<lparr>id_sr = ''df_raw'', parent = None, timestamp = ''t3'',
                data_hash = ''rows'', row_count = 2, col_count = 1,
                config_snapshot = [],
                delta_summary = ''Forked from main::df_raw''\<rparr>]\<rparr>),
         (''exp__v2'',
          \<lparr>created_at = ''t4'', forked_from = Some (''main'', ''df_raw''),
           states =
             [\<lparr>id_sr = ''df_raw'', parent = None, timestamp = ''t5'',
                data_hash = ''rows'', row_count = 2, col_count = 1,
                config_snapshot = [],
                delta_summary = ''Forked from main::df_raw''\<rparr>,
              \<lparr>id_sr = ''df_clean'', parent = Some ''df_raw'', timestamp = ''t6'',
                data_hash = ''rows'', row_count = 2, col_count = 1,
                config_snapshot = [], delta_summary = ''cleaned''\<rparr>]\<rparr>)],
      active_branch = ''main'',
      memory_cache = [(''main::df_raw'', df_a)],
      access_order = [''main::df_raw'']\<rparr>"
  unfolding two_branch_store_def
  by (simp add: commit_state_def add_to_cache_def StateManager_init_def mkdir_Some
        evict_loop_not_full evict_loop_full make_key_def touch_def H0_def df_a_def df_b_def
        create_branch_def load_state_def switch_branch_def get_config_at_state_def
        disk_name_def update_absent)

lemma colon_branch_store_eq:
  "colon_branch_store =
     \<lparr>cache_size = 5,
      temp_dir = Some [],
      branches =
        [(''main'',
          \<lparr>created_at = ''t0'', forked_from = None,
           states =
             [\<lparr>id_sr = ''df_raw'', parent = None, timestamp = ''t1'',
                data_hash = ''rows'', row_count = 2, col_count = 1,
                config_snapshot = [], delta_summary = ''loaded''\<rparr>]\<rparr>),
         (''exp'',
          \<lparr>created_at = ''t2'', forked_from = Some (''main'', ''df_raw''),
           states =
             [\<lparr>id_sr = ''df_raw'', parent = None, timestamp = ''t3'',
                data_hash = ''rows'', row_count = 2, col_count = 1,
                config_snapshot = [],
                delta_summary = ''Forked from main::df_raw''\<rparr>]\<rparr>),
         (''exp::v2'',
          \<lparr>created_at = ''t4'', forked_from = Some (''main'', ''df_raw''),
           states =
             [\<lparr>id_sr = ''df_raw'', parent = None, timestamp = ''t5'',
                data_hash = ''rows'', row_count = 2, col_count = 1,
                config_snapshot = [],
                delta_summary = ''Forked from main::df_raw''\<rparr>,
              \<lparr>id_sr = ''df_clean'', parent = Some ''df_raw'', timestamp = ''t6'',
                data_hash = ''rows'', row_count = 2, col_count = 1,
                config_snapshot = [], delta_summary = ''cleaned''\<rparr>]\<rparr>)],
      active_branch = ''main'',
      memory_cache =
        [(''main::df_raw'', df_a), (''exp::df_raw'', df_a), (''exp::v2::df_raw'', df_a),
         (''exp::v2::df_clean'', df_b)],
      access_order =
        [''exp::df_raw'', ''exp::v2::df_raw'', ''exp::v2::df_clean'', ''main::df_raw'']\<rparr>"
  unfolding colon_branch_store_def
  by (simp add: commit_state_def add_to_cache_def StateManager_init_def mkdir_Some
        evict_loop_not_full evict_loop_full make_key_def touch_def H0_def df_a_def df_b_def
        create_branch_def load_state_def switch_branch_def get_config_at_state_def
        disk_name_def update_absent)

text \<open>C7 does not hold of the code. The files of a branch are found by the pattern
  \<^verbatim>\<open>name__*.parquet\<close> and its cache entries by the prefix \<^verbatim>\<open>name::\<close>, so deleting
  \<^verbatim>\<open>exp\<close> also unlinks the spill files of the branch \<^verbatim>\<open>exp__v2\<close>, and also drops the
  cache entries of a branch \<^verbatim>\<open>exp::v2\<close>. The other branch stays in the registry with
  its history, and switching to it raises \<open>StateNotFoundError\<close>.\<close>

theorem delete_branch_removes_data_of_other_branches:
  "map_of (branches two_branch_store) ''exp__v2'' \<noteq> None \<and>
   temp_dir two_branch_store =
     Some [(''main__df_raw.parquet'', df_a), (''exp__df_raw.parquet'', df_a),
           (''exp__v2__df_raw.parquet'', df_a), (''exp__v2__df_clean.parquet'', df_b)] \<and>
   disk_name (make_key ''exp__v2'' ''df_clean'') = ''exp__v2__df_clean.parquet'' \<and>
   fst (delete_branch ''exp'' two_branch_store) = Inr () \<and>
   map_of (branches (snd (delete_branch ''exp'' two_branch_store))) ''exp__v2'' =
     map_of (branches two_branch_store) ''exp__v2'' \<and>
   temp_dir (snd (delete_branch ''exp'' two_branch_store)) =
     Some [(''main__df_raw.parquet'', df_a)] \<and>
   fst (switch_branch ''exp__v2'' (snd (delete_branch ''exp'' two_branch_store))) =
     Inl (StateNotFoundError ''State exp__v2::df_clean not found'') \<and>
   map_of (memory_cache colon_branch_store) (make_key ''exp::v2'' ''df_clean'') = Some df_b \<and>
   fst (delete_branch ''exp'' colon_branch_store) = Inr () \<and>
   map_of (branches (snd (delete_branch ''exp'' colon_branch_store))) ''exp::v2'' =
     map_of (branches colon_branch_store) ''exp::v2'' \<and>
   memory_cache (snd (delete_branch ''exp'' colon_branch_store)) =
     [(''main::df_raw'', df_a)] \<and>
   fst (switch_branch ''exp::v2'' (snd (delete_branch ''exp'' colon_branch_store))) =
     Inl (StateNotFoundError ''State exp::v2::df_clean not found'')"
  unfolding two_branch_store_eq colon_branch_store_eq
  by (simp add: delete_branch_def Let_def unlink_glob_def switch_branch_def load_state_def
        make_key_def disk_name_def)

subsection \<open>The configuration of a state\<close>





subsection \<open>Export\<close>






subsection \<open>Forking\<close>









end
